theory Spec2Isabelle
  imports Complex_Main
begin

text \<open>
  A model of the styling and layout core of a user interface tree: the selector
  matcher and the cascade of \<^verbatim>\<open>common/ui_styling.py\<close>, and the dirty flags, the identity
  mutators and the layout pass of \<^verbatim>\<open>common/ui_core.py\<close>. The definitions follow the
  Python source; the properties are stated and proved after them.
\<close>

section \<open>Stylesheets: \<^verbatim>\<open>common/ui_styling.py\<close>\<close>

subsection \<open>Declarations and rule sets\<close>

text \<open>
  A token value is what \<^verbatim>\<open>lexer.next_v()\<close> returns: a string (keys, value words,
  identifiers), a number or a colour (four channels). The converters live in modules
  outside the two source files; only the shape of their results matters here.
\<close>

datatype token = Str string | Num real | Col real real real real

text \<open>
  \<^verbatim>\<open>UI_Style_Declaration.__init__\<close> stores either the single token \<^verbatim>\<open>v\<close> or
  \<^verbatim>\<open>tuple(l)\<close> with \<^verbatim>\<open>l = [v]\<close> extended by further tokens, so a tuple value always
  has a first component. \<open>Tup v vs\<close> is the tuple \<^verbatim>\<open>(v, *vs)\<close>.
\<close>

datatype val = Tok token | Tup token "token list"

record style_declaration =
  property :: string
  decl_value :: val

text \<open>
  \<^verbatim>\<open>UI_Style_RuleSet\<close>: \<open>selectors\<close> is the list of comma separated selector chains,
  each a list of element strings with \<^verbatim>\<open>'>'\<close> entries between them where the
  stylesheet has a child combinator.
\<close>

record ruleset =
  selectors :: "string list list"
  decllist :: "style_declaration list"

text \<open>\<^verbatim>\<open>UI_Styling\<close>: the ordered list \<^verbatim>\<open>self.rules\<close>.\<close>

type_synonym styling = "ruleset list"

subsection \<open>Selector matching: \<^verbatim>\<open>UI_Style_RuleSet.match\<close>\<close>

text \<open>The dictionary \<^verbatim>\<open>p\<close> of \<^verbatim>\<open>splitsel\<close> and the mode \<^verbatim>\<open>m\<close> that names its entry.\<close>

record selparts =
  sel_type :: string
  sel_class :: "string list"
  sel_id :: string
  sel_pseudo :: "string list"

datatype selmode = M_type | M_class | M_id | M_pseudo

text \<open>
  \<^verbatim>\<open>if type(p[m]) is list: p[m].append(v) else: p[m] = v\<close>
\<close>

fun store_part :: "selparts \<Rightarrow> selmode \<Rightarrow> string \<Rightarrow> selparts" where
  "store_part p M_type v = p\<lparr>sel_type := v\<rparr>"
| "store_part p M_class v = p\<lparr>sel_class := sel_class p @ [v]\<rparr>"
| "store_part p M_id v = p\<lparr>sel_id := v\<rparr>"
| "store_part p M_pseudo v = p\<lparr>sel_pseudo := sel_pseudo p @ [v]\<rparr>"

text \<open>\<^verbatim>\<open>transition = {'.':'class', '#':'id', ':':'pseudo'}\<close>, asked only for these three.\<close>

definition transition :: "char \<Rightarrow> selmode" where
  "transition c = (if c = CHR ''.'' then M_class else if c = CHR ''#'' then M_id else M_pseudo)"

text \<open>The loop \<^verbatim>\<open>for c in sel\<close> with its state \<^verbatim>\<open>(p, v, m)\<close>, then the final store.\<close>

fun splitsel_loop :: "selparts \<Rightarrow> string \<Rightarrow> selmode \<Rightarrow> string \<Rightarrow> selparts" where
  "splitsel_loop p v m [] = store_part p m v"
| "splitsel_loop p v m (c # cs) =
     (if c \<in> set ''.:#'' then splitsel_loop (store_part p m v) [] (transition c) cs
      else splitsel_loop p (v @ [c]) m cs)"

definition splitsel :: "string \<Rightarrow> selparts" where
  "splitsel sel =
     splitsel_loop \<lparr>sel_type = [], sel_class = [], sel_id = [], sel_pseudo = []\<rparr> [] M_type sel"

text \<open>
  The four conjuncts accumulated in \<^verbatim>\<open>m\<close> by \<^verbatim>\<open>msel\<close>: \<open>a0\<close> is the element of the
  first argument, \<open>b0\<close> the element of the second (the one whose type may be \<^verbatim>\<open>*\<close>).
\<close>

definition elem_matches :: "string \<Rightarrow> string \<Rightarrow> bool" where
  "elem_matches a0 b0 =
     (let ap = splitsel a0; bp = splitsel b0 in
        (sel_type bp = ''*'' \<or> sel_type ap = sel_type bp)
      \<and> (sel_id bp = [] \<or> sel_id ap = sel_id bp)
      \<and> list_all (\<lambda>c. List.member (sel_class ap) c) (sel_class bp)
      \<and> list_all (\<lambda>c. List.member (sel_pseudo ap) c) (sel_pseudo bp))"

text \<open>
  \<^verbatim>\<open>msel(sa, sb, cont=True)\<close>. \<^verbatim>\<open>match\<close> calls it as \<^verbatim>\<open>msel(selector, sel)\<close>: \<open>sa\<close> is
  the chain handed to \<^verbatim>\<open>match\<close> (the node's chain, root first), \<open>sb\<close> one selector chain
  of the rule. Every recursive call shortens \<open>sb\<close>.
\<close>

fun msel :: "string list \<Rightarrow> string list \<Rightarrow> bool \<Rightarrow> bool" where
  "msel [] sb cont = True"
| "msel (a0 # sa) [] cont = False"
| "msel (a0 # sa) (b0 # sb) cont =
     (if b0 = ''>'' then msel (a0 # sa) sb False
      else if elem_matches a0 b0 \<and> msel sa sb True then True
      else if cont then msel (a0 # sa) sb True
      else False)"

text \<open>\<^verbatim>\<open>any(msel(selector, sel) for sel in self.selectors)\<close>\<close>

definition match :: "ruleset \<Rightarrow> string list \<Rightarrow> bool" where
  "match rule selector = list_ex (\<lambda>sel. msel selector sel True) (selectors rule)"

subsection \<open>The cascade: \<^verbatim>\<open>UI_Styling\<close>\<close>

text \<open>
  \<^verbatim>\<open>[d for rule in self.rules if rule.match(selector) for d in rule.decllist]\<close>
\<close>

definition get_decllist :: "styling \<Rightarrow> string list \<Rightarrow> style_declaration list" where
  "get_decllist rules selector = concat (map decllist (filter (\<lambda>rule. match rule selector) rules))"

text \<open>
  \<^verbatim>\<open>_trbl_split\<close>: a value that is not a tuple is repeated four times; a tuple is read
  by its length, the last branch taking every length from four on.
\<close>

fun trbl_split :: "val \<Rightarrow> val \<times> val \<times> val \<times> val" where
  "trbl_split (Tok v) = (Tok v, Tok v, Tok v, Tok v)"
| "trbl_split (Tup v0 []) = (Tok v0, Tok v0, Tok v0, Tok v0)"
| "trbl_split (Tup v0 [v1]) = (Tok v0, Tok v1, Tok v0, Tok v1)"
| "trbl_split (Tup v0 [v1, v2]) = (Tok v0, Tok v1, Tok v2, Tok v1)"
| "trbl_split (Tup v0 (v1 # v2 # v3 # vs)) = (Tok v0, Tok v1, Tok v2, Tok v3)"

text \<open>A Python dictionary from property names to values.\<close>

type_synonym style_dict = "string \<rightharpoonup> val"

text \<open>The four assignments \<^verbatim>\<open>decllist[...] = vals[0..3]\<close>, in the order written.\<close>

definition assign4 ::
  "style_dict \<Rightarrow> string \<Rightarrow> string \<Rightarrow> string \<Rightarrow> string \<Rightarrow> val \<times> val \<times> val \<times> val \<Rightarrow> style_dict"
where
  "assign4 d k0 k1 k2 k3 vals =
     (case vals of (x0, x1, x2, x3) \<Rightarrow> d(k0 \<mapsto> x0, k1 \<mapsto> x1, k2 \<mapsto> x2, k3 \<mapsto> x3))"

text \<open>
  One pass of the loop body of \<^verbatim>\<open>_expand_declarations\<close>. In the \<^verbatim>\<open>border\<close> branch a
  single value becomes the one-element tuple \<^verbatim>\<open>(v,)\<close>; \<^verbatim>\<open>v[1:]\<close> is read only when
  \<^verbatim>\<open>len(v) > 1\<close>.
\<close>

definition expand_step :: "style_dict \<Rightarrow> style_declaration \<Rightarrow> style_dict" where
  "expand_step d decl =
     (let p = property decl; v = decl_value decl in
      if p = ''margin'' \<or> p = ''padding'' then
        assign4 d (p @ ''-top'') (p @ ''-right'') (p @ ''-bottom'') (p @ ''-left'') (trbl_split v)
      else if p = ''border'' then
        (case v of
           Tok v0 \<Rightarrow> d(''border-width'' \<mapsto> Tok v0)
         | Tup v0 [] \<Rightarrow> d(''border-width'' \<mapsto> Tok v0)
         | Tup v0 (v1 # vs) \<Rightarrow>
             assign4 (d(''border-width'' \<mapsto> Tok v0))
               ''border-top-color'' ''border-right-color''
               ''border-bottom-color'' ''border-left-color'' (trbl_split (Tup v1 vs)))
      else if p = ''border-color'' then
        assign4 d ''border-top-color'' ''border-right-color''
          ''border-bottom-color'' ''border-left-color'' (trbl_split v)
      else if p = ''background'' then d(''background-color'' \<mapsto> v)
      else if p = ''width'' then d(''min-width'' \<mapsto> v, ''max-width'' \<mapsto> v)
      else if p = ''height'' then d(''min-height'' \<mapsto> v, ''max-height'' \<mapsto> v)
      else d(p \<mapsto> v))"

text \<open>\<^verbatim>\<open>{ k:v for (k,v) in decllist.items() if v != 'initial' }\<close>\<close>

definition drop_initial :: "style_dict \<Rightarrow> style_dict" where
  "drop_initial d =
     (\<lambda>k. case d k of None \<Rightarrow> None
          | Some v \<Rightarrow> if v = Tok (Str ''initial'') then None else Some v)"

definition expand_declarations :: "style_declaration list \<Rightarrow> style_dict" where
  "expand_declarations decls = drop_initial (foldl expand_step Map.empty decls)"

text \<open>
  \<^verbatim>\<open>compute_style(self, selector, initial_styling, override_styling)\<close>; the two optional
  stylesheets are \<open>None\<close> when the caller passes \<^verbatim>\<open>None\<close>. The branch under
  \<^verbatim>\<open>if False\<close> never runs.
\<close>

definition full_decls :: "styling \<Rightarrow> string list \<Rightarrow> styling option \<Rightarrow> style_declaration list" where
  "full_decls self selector override_styling =
     get_decllist self selector
     @ (case override_styling of None \<Rightarrow> [] | Some ov \<Rightarrow> get_decllist ov selector)"

definition init_decls :: "string list \<Rightarrow> styling option \<Rightarrow> style_dict" where
  "init_decls selector initial_styling =
     (case initial_styling of None \<Rightarrow> Map.empty
      | Some ini \<Rightarrow> expand_declarations (get_decllist ini selector))"

definition compute_style ::
  "styling \<Rightarrow> string list \<Rightarrow> styling option \<Rightarrow> styling option \<Rightarrow> style_dict"
where
  "compute_style self selector initial_styling override_styling =
     init_decls selector initial_styling
     ++ expand_declarations (full_decls self selector override_styling)"

text \<open>
  What one declaration writes under a key: the loop body run on the empty dictionary.
\<close>

definition assigns :: "style_declaration \<Rightarrow> string \<Rightarrow> val option" where
  "assigns decl k = expand_step Map.empty decl k"

text \<open>The four side entries of a dictionary for a box property \<open>p\<close>, top first.\<close>

definition sides :: "style_dict \<Rightarrow> string \<Rightarrow> val option \<times> val option \<times> val option \<times> val option" where
  "sides d p = (d (p @ ''-top''), d (p @ ''-right''), d (p @ ''-bottom''), d (p @ ''-left''))"

section \<open>The node tree: \<^verbatim>\<open>common/ui_core.py\<close>\<close>

subsection \<open>Objects, the store and exceptions\<close>

text \<open>
  Nodes are objects that refer to each other (\<^verbatim>\<open>_parent\<close>, \<^verbatim>\<open>_children\<close>) and are
  updated in place, so they live in a store and are named by their address.
\<close>

type_synonym ref = nat

text \<open>
  What \<^verbatim>\<open>self._id\<close> can hold: \<^verbatim>\<open>None\<close> (from \<^verbatim>\<open>__init__\<close>), a string, or the
  builtin function \<^verbatim>\<open>id\<close>. Inside the setter the name \<^verbatim>\<open>id\<close> is neither a local nor a
  module global (the property \<^verbatim>\<open>id\<close> is a name of the class body, which methods do not
  see), so it denotes the builtin.
\<close>

datatype id_value = Id_None | Id_Str string | Id_Builtin

text \<open>The dictionary \<^verbatim>\<open>self._dirty_propagation\<close> with its keys \<^verbatim>\<open>defer, parent, children\<close>.\<close>

record propagation =
  p_defer :: bool
  p_parent :: "string set"
  p_children :: "string set"

text \<open>
  A number of the layout code: a finite one, taken as a real number, or
  \<^verbatim>\<open>float('inf')\<close>.
\<close>

datatype pynum = Fin real | PInf

text \<open>
  The attributes \<^verbatim>\<open>__init__\<close> assigns, as far as the operations below read or write
  them. \<open>extra_attrs\<close> holds every other attribute a method stores on the object (its
  instance dictionary beyond the names of \<^verbatim>\<open>__init__\<close>); a name that is neither there,
  nor a field, nor a name of the class raises \<^verbatim>\<open>AttributeError\<close> when read.
\<close>

record node =
  parent :: "ref option"
  children :: "ref list"
  node_id :: id_value
  classes :: "string set"
  pseudoclasses :: "string set"
  custom_style :: "styling option"
  style_str :: string
  is_visible :: bool
  computed_styles :: "style_dict option"
  preferred_width :: pynum
  preferred_height :: pynum
  content_width :: pynum
  content_height :: pynum
  dirty_properties :: "string set"
  dirty_propagation :: propagation
  defer_clean :: bool
  defer_recalc :: bool
  extra_attrs :: "string \<rightharpoonup> bool"

type_synonym store = "ref \<Rightarrow> node"

datatype error = AttributeError | RecursionError | TypeError | ParseError | AssertionError

text \<open>
  A call ends with the store it leaves behind and the exception it raised, if any:
  what a method wrote before it raised stays written.
\<close>

type_synonym outcome = "store \<times> error option"

definition and_then :: "outcome \<Rightarrow> (store \<Rightarrow> outcome) \<Rightarrow> outcome" where
  "and_then r f = (case r of (s, None) \<Rightarrow> f s | (s, Some e) \<Rightarrow> (s, Some e))"

text \<open>The values of the fields right after the plain assignments of \<^verbatim>\<open>__init__\<close>.\<close>

definition init_fields :: node where
  "init_fields =
     \<lparr>parent = None, children = [], node_id = Id_None, classes = {}, pseudoclasses = {},
      custom_style = None, style_str = [], is_visible = False, computed_styles = None,
      preferred_width = Fin 0, preferred_height = Fin 0,
      content_width = Fin 0, content_height = Fin 0,
      dirty_properties = {''style'', ''size'', ''content''},
      dirty_propagation = \<lparr>p_defer = False, p_parent = {}, p_children = {}\<rparr>,
      defer_clean = False, defer_recalc = False, extra_attrs = Map.empty\<rparr>"

subsection \<open>Dirtiness: \<^verbatim>\<open>dirty\<close> and \<^verbatim>\<open>propagate_dirtiness\<close>\<close>

text \<open>
  The argument \<^verbatim>\<open>properties\<close> of \<^verbatim>\<open>dirty\<close>: \<^verbatim>\<open>None\<close> (the default), a string, a list
  or a set, and the set the first three lines of \<^verbatim>\<open>dirty\<close> make of it.
\<close>

datatype properties_arg = P_None | P_Str string | P_List "string list" | P_Set "string set"

fun properties_set :: "properties_arg \<Rightarrow> string set" where
  "properties_set P_None = {''style'', ''size'', ''content''}"
| "properties_set (P_Str x) = {x}"
| "properties_set (P_List xs) = set xs"
| "properties_set (P_Set X) = X"

text \<open>The three in-place unions of \<^verbatim>\<open>dirty\<close> on the node itself.\<close>

definition mark_dirty :: "node \<Rightarrow> string set \<Rightarrow> bool \<Rightarrow> bool \<Rightarrow> node" where
  "mark_dirty nd props to_parent to_children =
     (let pr = dirty_propagation nd;
          pr1 = (if to_parent then pr\<lparr>p_parent := p_parent pr \<union> props\<rparr> else pr);
          pr2 = (if to_children then pr1\<lparr>p_children := p_children pr1 \<union> props\<rparr> else pr1)
      in nd\<lparr>dirty_properties := dirty_properties nd \<union> props, dirty_propagation := pr2\<rparr>)"

text \<open>
  \<^verbatim>\<open>self._dirty_propagation['parent'].clear()\<close> and
  \<^verbatim>\<open>self._dirty_propagation['children'].clear()\<close>
\<close>

definition clear_pending_parent :: "node \<Rightarrow> node" where
  "clear_pending_parent nd = nd\<lparr>dirty_propagation := (dirty_propagation nd)\<lparr>p_parent := {}\<rparr>\<rparr>"

definition clear_pending_children :: "node \<Rightarrow> node" where
  "clear_pending_children nd = nd\<lparr>dirty_propagation := (dirty_propagation nd)\<lparr>p_children := {}\<rparr>\<rparr>"

text \<open>
  \<^verbatim>\<open>dirty\<close>, \<^verbatim>\<open>propagate_dirtiness\<close> and the loop over \<^verbatim>\<open>self._children\<close> in it. The
  first argument is the number of nested calls of \<^verbatim>\<open>dirty\<close> the interpreter still
  allows; when it is used up the call raises \<^verbatim>\<open>RecursionError\<close>. The sets handed on are
  the live sets \<^verbatim>\<open>self._dirty_propagation['parent']\<close> and \<^verbatim>\<open>['children']\<close>, read when
  the callee runs its unions.
\<close>

function dirty :: "nat \<Rightarrow> store \<Rightarrow> ref \<Rightarrow> properties_arg \<Rightarrow> bool \<Rightarrow> bool \<Rightarrow> outcome"
  and propagate_dirtiness :: "nat \<Rightarrow> store \<Rightarrow> ref \<Rightarrow> outcome"
  and dirty_each :: "nat \<Rightarrow> store \<Rightarrow> ref \<Rightarrow> ref list \<Rightarrow> outcome"
where
  "dirty 0 s n properties to_parent to_children = (s, Some RecursionError)"
| "dirty (Suc k) s n properties to_parent to_children =
     propagate_dirtiness k
       (s(n := mark_dirty (s n) (properties_set properties) to_parent to_children)) n"
| "propagate_dirtiness k s n =
     (if p_defer (dirty_propagation (s n)) then (s, None)
      else
        and_then
          (if p_parent (dirty_propagation (s n)) \<noteq> {} then
             and_then
               (case parent (s n) of
                  None \<Rightarrow> (s, None)
                | Some p \<Rightarrow> dirty k s p (P_Set (p_parent (dirty_propagation (s n)))) True False)
               (\<lambda>s1. (s1(n := clear_pending_parent (s1 n)), None))
           else (s, None))
          (\<lambda>s2.
             if p_children (dirty_propagation (s2 n)) \<noteq> {} then
               and_then (dirty_each k s2 n (children (s2 n)))
                 (\<lambda>s3. (s3(n := clear_pending_children (s3 n)), None))
             else (s2, None)))"
| "dirty_each k s n [] = (s, None)"
| "dirty_each k s n (c # cs) =
     and_then (dirty k s c (P_Set (p_children (dirty_propagation (s n)))) False True)
       (\<lambda>s1. dirty_each k s1 n cs)"
  by pat_completeness auto
termination
  by (relation "measures
        [\<lambda>x. case x of
               Inl (k, s, n, pa, tp, tc) \<Rightarrow> 3 * k
             | Inr (Inl (k, s, n)) \<Rightarrow> 3 * k + 2
             | Inr (Inr (k, s, n, cs)) \<Rightarrow> 3 * k + 1,
         \<lambda>x. case x of
               Inl (k, s, n, pa, tp, tc) \<Rightarrow> 0
             | Inr (Inl (k, s, n)) \<Rightarrow> 0
             | Inr (Inr (k, s, n, cs)) \<Rightarrow> length cs]") auto

declare propagate_dirtiness.simps [simp del]

text \<open>The property \<^verbatim>\<open>is_dirty\<close>.\<close>

definition is_dirty :: "node \<Rightarrow> bool" where
  "is_dirty nd \<longleftrightarrow>
     dirty_properties nd \<noteq> {} \<or> p_parent (dirty_propagation nd) \<noteq> {}
     \<or> p_children (dirty_propagation nd) \<noteq> {}"

text \<open>The setter of \<^verbatim>\<open>defer_dirty_propagation\<close>.\<close>

definition set_defer_dirty_propagation :: "nat \<Rightarrow> store \<Rightarrow> ref \<Rightarrow> bool \<Rightarrow> outcome" where
  "set_defer_dirty_propagation k s n v =
     propagate_dirtiness k
       (s(n := (s n)\<lparr>dirty_propagation := (dirty_propagation (s n))\<lparr>p_defer := v\<rparr>\<rparr>)) n"

subsection \<open>The decorator \<^verbatim>\<open>UI_Core_Utils.defer_dirty\<close>\<close>

text \<open>
  \<^verbatim>\<open>wrapped\<close>: it stores \<^verbatim>\<open>True\<close> under the attribute \<^verbatim>\<open>_defer_dirty\<close>, runs the wrapped
  method, stores \<^verbatim>\<open>False\<close> and calls \<^verbatim>\<open>self.dirty(properties, parent, children)\<close>. The
  attribute is not one of \<^verbatim>\<open>__init__\<close>; it is not the entry
  \<^verbatim>\<open>_dirty_propagation['defer']\<close> that \<^verbatim>\<open>propagate_dirtiness\<close> reads.
\<close>

definition set_attr :: "node \<Rightarrow> string \<Rightarrow> bool \<Rightarrow> node" where
  "set_attr nd name v = nd\<lparr>extra_attrs := (extra_attrs nd)(name \<mapsto> v)\<rparr>"

definition defer_dirty ::
  "properties_arg \<Rightarrow> bool \<Rightarrow> bool \<Rightarrow> (nat \<Rightarrow> store \<Rightarrow> ref \<Rightarrow> outcome)
   \<Rightarrow> nat \<Rightarrow> store \<Rightarrow> ref \<Rightarrow> outcome"
where
  "defer_dirty properties to_parent to_children fn k s n =
     and_then (fn k (s(n := set_attr (s n) ''_defer_dirty'' True)) n)
       (\<lambda>s1. dirty k (s1(n := set_attr (s1 n) ''_defer_dirty'' False)) n
                properties to_parent to_children)"

subsection \<open>Identity: style text, id, classes, pseudoclasses\<close>

text \<open>
  \<^verbatim>\<open>str.strip()\<close> on the characters Python counts as white space among the first 128,
  and \<^verbatim>\<open>str.split(' ')\<close>, which cuts at every single blank.
\<close>

definition is_space :: "char \<Rightarrow> bool" where
  "is_space c \<longleftrightarrow> c \<in> set [CHR '' '', CHR 0x09, CHR 0x0A, CHR 0x0B, CHR 0x0C, CHR 0x0D,
                            CHR 0x1C, CHR 0x1D, CHR 0x1E, CHR 0x1F]"

definition strip :: "string \<Rightarrow> string" where
  "strip x = rev (dropWhile is_space (rev (dropWhile is_space x)))"

fun split_loop :: "string \<Rightarrow> string \<Rightarrow> string list" where
  "split_loop cur [] = [cur]"
| "split_loop cur (c # cs) =
     (if c = CHR '' '' then cur # split_loop [] cs else split_loop (cur @ [c]) cs)"

definition split_blank :: "string \<Rightarrow> string list" where
  "split_blank x = split_loop [] x"

text \<open>
  The setter of \<^verbatim>\<open>style\<close>. \<^verbatim>\<open>UI_Styling(...)\<close> runs the lexer and the parser, which are
  not among the source files: \<open>parse\<close> stands for the constructor, \<open>None\<close> when it
  raises. \<open>style_text\<close> is \<^verbatim>\<open>str(style or '')\<close>, empty for \<^verbatim>\<open>None\<close>.
\<close>

definition style_text :: "string option \<Rightarrow> string" where
  "style_text style = (case style of None \<Rightarrow> [] | Some x \<Rightarrow> x)"

definition style_setter ::
  "(string \<Rightarrow> styling option) \<Rightarrow> nat \<Rightarrow> store \<Rightarrow> ref \<Rightarrow> string option \<Rightarrow> outcome"
where
  "style_setter parse k s n style =
     (let txt = style_text style;
          s1 = s(n := (s n)\<lparr>style_str := txt\<rparr>)
      in case parse (''*{'' @ txt @ '';}'') of
           None \<Rightarrow> (s1, Some ParseError)
         | Some sheet \<Rightarrow>
             dirty k (s1(n := (s1 n)\<lparr>custom_style := Some sheet\<rparr>)) n P_None True False)"

text \<open>\<^verbatim>\<open>add_style\<close>: \<^verbatim>\<open>self.style = '%s;%s' % (self.style, str(style or ''))\<close>\<close>

definition add_style ::
  "(string \<Rightarrow> styling option) \<Rightarrow> nat \<Rightarrow> store \<Rightarrow> ref \<Rightarrow> string option \<Rightarrow> outcome"
where
  "add_style parse k s n style =
     style_setter parse k s n
       (Some (style_str (s n) @ '';'' @ style_text style))"

text \<open>
  The setter of \<^verbatim>\<open>id\<close>: \<^verbatim>\<open>self._id = id\<close> stores the builtin, not \<^verbatim>\<open>nid\<close>. The
  comparison \<^verbatim>\<open>self._id == nid\<close> holds only for an equal string. The getter returns
  \<^verbatim>\<open>self._id\<close>.
\<close>

definition id_setter :: "nat \<Rightarrow> store \<Rightarrow> ref \<Rightarrow> string option \<Rightarrow> outcome" where
  "id_setter k s n nid =
     (let nid1 = (case nid of None \<Rightarrow> [] | Some x \<Rightarrow> strip x) in
      if node_id (s n) = Id_Str nid1 then (s, None)
      else dirty k (s(n := (s n)\<lparr>node_id := Id_Builtin\<rparr>)) n P_None True True)"

definition id_getter :: "store \<Rightarrow> ref \<Rightarrow> id_value" where
  "id_getter s n = node_id (s n)"

text \<open>The setter of \<^verbatim>\<open>classes\<close>, \<^verbatim>\<open>add_class\<close> and \<^verbatim>\<open>del_class\<close>.\<close>

definition classes_setter :: "nat \<Rightarrow> store \<Rightarrow> ref \<Rightarrow> string option \<Rightarrow> outcome" where
  "classes_setter k s n cls =
     (let new = (case cls of None \<Rightarrow> {}
                 | Some x \<Rightarrow> if x = [] then {} else set (filter (\<lambda>c. c \<noteq> []) (split_blank x)))
      in if new = classes (s n) then (s, None)
         else dirty k (s(n := (s n)\<lparr>classes := new\<rparr>)) n P_None True True)"

definition add_class :: "nat \<Rightarrow> store \<Rightarrow> ref \<Rightarrow> string \<Rightarrow> outcome" where
  "add_class k s n cls =
     (if cls \<in> classes (s n) then (s, None)
      else dirty k (s(n := (s n)\<lparr>classes := insert cls (classes (s n))\<rparr>)) n P_None True True)"

definition del_class :: "nat \<Rightarrow> store \<Rightarrow> ref \<Rightarrow> string \<Rightarrow> outcome" where
  "del_class k s n cls =
     (if cls \<notin> classes (s n) then (s, None)
      else dirty k (s(n := (s n)\<lparr>classes := classes (s n) - {cls}\<rparr>)) n P_None True True)"

text \<open>\<^verbatim>\<open>clear_pseudoclass\<close>, \<^verbatim>\<open>add_pseudoclass\<close> and \<^verbatim>\<open>del_pseudoclass\<close>.\<close>

definition clear_pseudoclass :: "nat \<Rightarrow> store \<Rightarrow> ref \<Rightarrow> outcome" where
  "clear_pseudoclass k s n =
     (if pseudoclasses (s n) = {} then (s, None)
      else dirty k (s(n := (s n)\<lparr>pseudoclasses := {}\<rparr>)) n P_None True True)"

definition add_pseudoclass :: "nat \<Rightarrow> store \<Rightarrow> ref \<Rightarrow> string \<Rightarrow> outcome" where
  "add_pseudoclass k s n pseudo =
     (if pseudo \<in> pseudoclasses (s n) then (s, None)
      else dirty k (s(n := (s n)\<lparr>pseudoclasses := insert pseudo (pseudoclasses (s n))\<rparr>)) n
             P_None True True)"

definition del_pseudoclass :: "nat \<Rightarrow> store \<Rightarrow> ref \<Rightarrow> string \<Rightarrow> outcome" where
  "del_pseudoclass k s n pseudo =
     (if pseudo \<notin> pseudoclasses (s n) then (s, None)
      else dirty k (s(n := (s n)\<lparr>pseudoclasses := pseudoclasses (s n) - {pseudo}\<rparr>)) n
             P_None True True)"

text \<open>The identity mutators as one type of requests, and the call each one stands for.\<close>

datatype mutation =
    Set_style "string option"
  | Add_style "string option"
  | Set_id "string option"
  | Set_classes "string option"
  | Add_class string
  | Del_class string
  | Clear_pseudoclass
  | Add_pseudoclass string
  | Del_pseudoclass string

fun mutate ::
  "(string \<Rightarrow> styling option) \<Rightarrow> nat \<Rightarrow> store \<Rightarrow> ref \<Rightarrow> mutation \<Rightarrow> outcome"
where
  "mutate parse k s n (Set_style x) = style_setter parse k s n x"
| "mutate parse k s n (Add_style x) = add_style parse k s n x"
| "mutate parse k s n (Set_id x) = id_setter k s n x"
| "mutate parse k s n (Set_classes x) = classes_setter k s n x"
| "mutate parse k s n (Add_class x) = add_class k s n x"
| "mutate parse k s n (Del_class x) = del_class k s n x"
| "mutate parse k s n Clear_pseudoclass = clear_pseudoclass k s n"
| "mutate parse k s n (Add_pseudoclass x) = add_pseudoclass k s n x"
| "mutate parse k s n (Del_pseudoclass x) = del_pseudoclass k s n x"

text \<open>A method body that runs mutators of \<^verbatim>\<open>self\<close> one after the other.\<close>

fun mutate_all ::
  "(string \<Rightarrow> styling option) \<Rightarrow> mutation list \<Rightarrow> nat \<Rightarrow> store \<Rightarrow> ref \<Rightarrow> outcome"
where
  "mutate_all parse [] k s n = (s, None)"
| "mutate_all parse (m # ms) k s n =
     and_then (mutate parse k s n m) (\<lambda>s1. mutate_all parse ms k s1 n)"

subsection \<open>The list of children\<close>

text \<open>
  \<^verbatim>\<open>delete_child\<close> and \<^verbatim>\<open>append_child\<close>. A node object is always true, so
  \<^verbatim>\<open>assert child\<close> passes; the other assertion can fail. \<^verbatim>\<open>list.remove\<close> takes the
  first occurrence out. \<^verbatim>\<open>append_child\<close> never writes \<^verbatim>\<open>child._parent\<close>.
\<close>

definition delete_child :: "nat \<Rightarrow> store \<Rightarrow> ref \<Rightarrow> ref \<Rightarrow> outcome" where
  "delete_child k s n child =
     (if child \<notin> set (children (s n)) then (s, Some AssertionError)
      else
        let s1 = s(n := (s n)\<lparr>children := remove1 child (children (s n))\<rparr>);
            s2 = s1(child := (s1 child)\<lparr>parent := None\<rparr>)
        in and_then (dirty k s2 child P_None True False)
             (\<lambda>s3. dirty k s3 n (P_Str ''content'') True False))"

definition append_child :: "nat \<Rightarrow> store \<Rightarrow> ref \<Rightarrow> ref \<Rightarrow> outcome" where
  "append_child k s n child =
     (if child \<in> set (children (s n)) then (s, Some AssertionError)
      else
        and_then
          (case parent (s child) of
             None \<Rightarrow> (s, None)
           | Some p \<Rightarrow> delete_child k s p child)
          (\<lambda>s1. and_then
                  (dirty k (s1(n := (s1 n)\<lparr>children := children (s1 n) @ [child]\<rparr>)) child
                     P_None True False)
                  (\<lambda>s2. dirty k s2 n P_None True False)))"

text \<open>
  \<^verbatim>\<open>clear_children\<close>: the loop over the copy \<^verbatim>\<open>list(self._children)\<close>, wrapped by
  \<^verbatim>\<open>@UI_Core_Utils.defer_dirty()\<close> with its default arguments.
\<close>

fun delete_each :: "nat \<Rightarrow> store \<Rightarrow> ref \<Rightarrow> ref list \<Rightarrow> outcome" where
  "delete_each k s n [] = (s, None)"
| "delete_each k s n (c # cs) = and_then (delete_child k s n c) (\<lambda>s1. delete_each k s1 n cs)"

definition clear_children :: "nat \<Rightarrow> store \<Rightarrow> ref \<Rightarrow> outcome" where
  "clear_children k s n =
     defer_dirty P_None True False (\<lambda>k s n. delete_each k s n (children (s n))) k s n"

subsection \<open>Layout: \<^verbatim>\<open>layout\<close>, \<^verbatim>\<open>_get_style_num\<close>, \<^verbatim>\<open>_get_style_trbl\<close>\<close>

text \<open>Sum, \<^verbatim>\<open>max\<close> and \<^verbatim>\<open>min\<close> of two numbers.\<close>

fun py_add :: "pynum \<Rightarrow> pynum \<Rightarrow> pynum" where
  "py_add (Fin a) (Fin b) = Fin (a + b)"
| "py_add PInf y = PInf"
| "py_add x PInf = PInf"

fun py_max :: "pynum \<Rightarrow> pynum \<Rightarrow> pynum" where
  "py_max (Fin a) (Fin b) = Fin (max a b)"
| "py_max PInf y = PInf"
| "py_max x PInf = PInf"

fun py_min :: "pynum \<Rightarrow> pynum \<Rightarrow> pynum" where
  "py_min (Fin a) (Fin b) = Fin (min a b)"
| "py_min PInf y = y"
| "py_min x PInf = x"

text \<open>
  Modelled from the spec: \<^verbatim>\<open>mid\<close> is imported from the module \<^verbatim>\<open>maths\<close>, which is not
  among the source files. The specification reads \<^verbatim>\<open>mid(v, min, max)\<close> as
  \<open>clamp(v, min, max)\<close>.
\<close>

definition mid :: "pynum \<Rightarrow> pynum \<Rightarrow> pynum \<Rightarrow> pynum" where
  "mid v lo hi = py_max lo (py_min hi v)"

text \<open>
  What \<^verbatim>\<open>_get_style_num\<close> returns: the entry of the computed style as it stands, or a
  number (the default, or the result of a clamp). The sums and comparisons of
  \<^verbatim>\<open>layout\<close> need numbers: here the first operand that is not a number raises
  \<^verbatim>\<open>TypeError\<close>, as a number met by a string or a tuple does in Python.
\<close>

datatype pyvalue = Styled val | Number pynum

fun to_num :: "pyvalue \<Rightarrow> error + pynum" where
  "to_num (Number x) = Inr x"
| "to_num (Styled (Tok (Num r))) = Inr (Fin r)"
| "to_num (Styled v) = Inl TypeError"

definition get_style_num ::
  "style_dict \<Rightarrow> string \<Rightarrow> pynum \<Rightarrow> pynum option \<Rightarrow> pynum option \<Rightarrow> error + pyvalue"
where
  "get_style_num cs k def_v min_v max_v =
     (let v0 = (case cs k of None \<Rightarrow> Tok (Str ''auto'') | Some x \<Rightarrow> x);
          v1 = (if v0 = Tok (Str ''auto'') then Number def_v else Styled v0)
      in case (case min_v of None \<Rightarrow> Inr v1
               | Some lo \<Rightarrow> (case to_num v1 of Inl e \<Rightarrow> Inl e
                             | Inr x \<Rightarrow> Inr (Number (py_max lo x)))) of
           Inl e \<Rightarrow> Inl e
         | Inr v2 \<Rightarrow>
             (case max_v of None \<Rightarrow> Inr v2
              | Some hi \<Rightarrow> (case to_num v2 of Inl e \<Rightarrow> Inl e
                            | Inr x \<Rightarrow> Inr (Number (py_min hi x)))))"

text \<open>A call \<^verbatim>\<open>self._get_style_num(k, def_v)\<close> whose result goes into a sum.\<close>

definition style_num :: "style_dict \<Rightarrow> string \<Rightarrow> pynum \<Rightarrow> error + pynum" where
  "style_num cs k def_v =
     (case get_style_num cs k def_v None None of Inl e \<Rightarrow> Inl e | Inr v \<Rightarrow> to_num v)"

text \<open>Sequencing of computations that may raise, and the sum of a list of them.\<close>

definition bind_err :: "error + 'a \<Rightarrow> ('a \<Rightarrow> error + 'b) \<Rightarrow> error + 'b" where
  "bind_err r f = (case r of Inl e \<Rightarrow> Inl e | Inr x \<Rightarrow> f x)"

fun sum_err :: "(error + pynum) list \<Rightarrow> error + pynum" where
  "sum_err [] = Inr (Fin 0)"
| "sum_err [x] = x"
| "sum_err (x # y # ys) =
     bind_err x (\<lambda>a. bind_err y (\<lambda>b. sum_err (Inr (py_add a b) # ys)))"

text \<open>
  The two sums of \<^verbatim>\<open>layout\<close>, for the computed style \<open>cs\<close> and the content size
  \<open>content\<close>; \<open>b\<close> is \<open>width\<close> or \<open>height\<close>, and \<open>lead\<close>, \<open>trail\<close> the sides before and
  after the content (\<open>left\<close> and \<open>right\<close>, or \<open>top\<close> and \<open>bottom\<close>).
\<close>

definition preferred ::
  "style_dict \<Rightarrow> string \<Rightarrow> string \<Rightarrow> string \<Rightarrow> pynum \<Rightarrow> error + pynum"
where
  "preferred cs b lead trail content =
     sum_err
       [style_num cs (''margin-'' @ lead) (Fin 0),
        style_num cs ''border-width'' (Fin 0),
        style_num cs (''padding-'' @ lead) (Fin 0),
        bind_err (style_num cs b content) (\<lambda>v.
          bind_err (style_num cs (''min-'' @ b) (Fin 0)) (\<lambda>lo.
            bind_err (style_num cs (''max-'' @ b) PInf) (\<lambda>hi. Inr (mid v lo hi)))),
        style_num cs (''padding-'' @ trail) (Fin 0),
        style_num cs ''border-width'' (Fin 0),
        style_num cs (''margin-'' @ trail) (Fin 0)]"

text \<open>
  \<^verbatim>\<open>layout\<close>. Its first line reads \<^verbatim>\<open>self._is_dirty\<close>: this is no attribute of
  \<^verbatim>\<open>__init__\<close> and no name of the class (the property is called \<^verbatim>\<open>is_dirty\<close>), so the
  value can only come from the instance's other attributes; when there is none the read
  raises \<^verbatim>\<open>AttributeError\<close>. The loop over the children is \<open>layout_each\<close>, whose first
  argument bounds the nesting of calls. \<^verbatim>\<open>layout_flexbox\<close>, \<^verbatim>\<open>layout_block\<close> and
  \<^verbatim>\<open>layout_inline\<close> change nothing. \<^verbatim>\<open>self._computed_styles.get\<close> raises
  \<^verbatim>\<open>AttributeError\<close> while the computed style is still \<^verbatim>\<open>None\<close>.
\<close>

definition store_width :: "store \<Rightarrow> ref \<Rightarrow> pynum \<Rightarrow> store" where
  "store_width s n w = s(n := (s n)\<lparr>preferred_width := w\<rparr>)"

definition store_height :: "store \<Rightarrow> ref \<Rightarrow> pynum \<Rightarrow> store" where
  "store_height s n h = s(n := (s n)\<lparr>preferred_height := h\<rparr>)"

definition layout_sizes :: "store \<Rightarrow> ref \<Rightarrow> outcome" where
  "layout_sizes s n =
     (case computed_styles (s n) of
        None \<Rightarrow> (s, Some AttributeError)
      | Some cs \<Rightarrow>
          (case preferred cs ''width'' ''left'' ''right'' (content_width (s n)) of
             Inl e \<Rightarrow> (s, Some e)
           | Inr w \<Rightarrow>
               (case preferred cs ''height'' ''top'' ''bottom'' (content_height (s n)) of
                  Inl e \<Rightarrow> (store_width s n w, Some e)
                | Inr h \<Rightarrow> (store_height (store_width s n w) n h, None))))"

function layout :: "nat \<Rightarrow> store \<Rightarrow> ref \<Rightarrow> outcome"
  and layout_each :: "nat \<Rightarrow> store \<Rightarrow> ref list \<Rightarrow> outcome"
where
  "layout k s n =
     (case extra_attrs (s n) ''_is_dirty'' of
        None \<Rightarrow> (s, Some AttributeError)
      | Some is_dirty_attr \<Rightarrow>
          if \<not> is_dirty_attr then (s, None)
          else if defer_recalc (s n) then (s, None)
          else if \<not> is_visible (s n) then (s, None)
          else and_then (layout_each k s (children (s n))) (\<lambda>s1. layout_sizes s1 n))"
| "layout_each k s [] = (s, None)"
| "layout_each 0 s (c # cs) = (s, Some RecursionError)"
| "layout_each (Suc k) s (c # cs) =
     and_then (layout k s c) (\<lambda>s1. layout_each (Suc k) s1 cs)"
  by pat_completeness auto
termination
  by (relation "measures
        [\<lambda>x. case x of Inl (k, s, n) \<Rightarrow> 2 * k + 1 | Inr (k, s, cs) \<Rightarrow> 2 * k,
         \<lambda>x. case x of Inl (k, s, n) \<Rightarrow> 0 | Inr (k, s, cs) \<Rightarrow> length cs]") auto

declare layout.simps [simp del]

section \<open>Notions used to state the properties\<close>

text \<open>
  A node with its dirtiness erased: everything \<^verbatim>\<open>dirty\<close> and \<^verbatim>\<open>propagate_dirtiness\<close>
  leave alone, the flag \<^verbatim>\<open>defer\<close> included.
\<close>

definition ident :: "node \<Rightarrow> node" where
  "ident nd = nd\<lparr>dirty_properties := {},
       dirty_propagation := \<lparr>p_defer = p_defer (dirty_propagation nd), p_parent = {}, p_children = {}\<rparr>\<rparr>"








text \<open>
  The calls a client can make on a node \<open>n\<close>: \<^verbatim>\<open>dirty\<close>, the setter of
  \<^verbatim>\<open>defer_dirty_propagation\<close>, an identity mutator, a method wrapped by \<^verbatim>\<open>defer_dirty\<close>
  that runs mutators, the three methods on the list of children, and \<^verbatim>\<open>layout\<close>. A
  store is reachable when such calls lead to it from a store of objects that hold only
  the attributes of \<^verbatim>\<open>__init__\<close>.
\<close>

datatype request =
    Req_dirty properties_arg bool bool
  | Req_defer bool
  | Req_mutate mutation
  | Req_deferred properties_arg bool bool "mutation list"
  | Req_append_child ref
  | Req_delete_child ref
  | Req_clear_children
  | Req_layout

fun perform ::
  "(string \<Rightarrow> styling option) \<Rightarrow> nat \<Rightarrow> store \<Rightarrow> ref \<Rightarrow> request \<Rightarrow> outcome"
where
  "perform parse k s n (Req_dirty pa tp tc) = dirty k s n pa tp tc"
| "perform parse k s n (Req_defer v) = set_defer_dirty_propagation k s n v"
| "perform parse k s n (Req_mutate mu) = mutate parse k s n mu"
| "perform parse k s n (Req_deferred pa tp tc mus) =
     defer_dirty pa tp tc (mutate_all parse mus) k s n"
| "perform parse k s n (Req_append_child child) = append_child k s n child"
| "perform parse k s n (Req_delete_child child) = delete_child k s n child"
| "perform parse k s n Req_clear_children = clear_children k s n"
| "perform parse k s n Req_layout = layout k s n"

inductive reachable :: "(string \<Rightarrow> styling option) \<Rightarrow> store \<Rightarrow> bool"
  for parse :: "string \<Rightarrow> styling option"
where
  constructed: "\<forall>n. extra_attrs (s n) = Map.empty \<Longrightarrow> reachable parse s"
| performed: "reachable parse s \<Longrightarrow> reachable parse (fst (perform parse k s n r))"

definition no_is_dirty :: "store \<Rightarrow> bool" where
  "no_is_dirty s \<longleftrightarrow> (\<forall>m. extra_attrs (s m) ''_is_dirty'' = None)"

section \<open>Example inputs\<close>

text \<open>The rules \<^verbatim>\<open>div p.note { }\<close> and \<^verbatim>\<open>div > p.note { }\<close> as the parser builds them.\<close>

definition rule_descendant :: ruleset where
  "rule_descendant = \<lparr>selectors = [[''div'', ''p.note'']], decllist = []\<rparr>"

definition rule_child :: ruleset where
  "rule_child = \<lparr>selectors = [[''div'', ''>'', ''p.note'']], decllist = []\<rparr>"

text \<open>The rules \<^verbatim>\<open>div p { }\<close> and \<^verbatim>\<open>p { }\<close>.\<close>

definition rule_div_p :: ruleset where
  "rule_div_p = \<lparr>selectors = [[''div'', ''p'']], decllist = []\<rparr>"

definition rule_p :: ruleset where
  "rule_p = \<lparr>selectors = [[''p'']], decllist = []\<rparr>"

text \<open>
  \<^verbatim>\<open>*{;}\<close>, the stylesheet \<^verbatim>\<open>init_default_style\<close> builds from an empty
  \<^verbatim>\<open>default_style\<close>; \<^verbatim>\<open>*{display:block;}\<close>; \<^verbatim>\<open>*{display:initial;}\<close>.
\<close>

definition sheet_empty :: styling where
  "sheet_empty = [\<lparr>selectors = [[''*'']], decllist = []\<rparr>]"

definition decl_display_block :: style_declaration where
  "decl_display_block = \<lparr>property = ''display'', decl_value = Tok (Str ''block'')\<rparr>"

definition decl_display_initial :: style_declaration where
  "decl_display_initial = \<lparr>property = ''display'', decl_value = Tok (Str ''initial'')\<rparr>"

definition sheet_display_block :: styling where
  "sheet_display_block = [\<lparr>selectors = [[''*'']], decllist = [decl_display_block]\<rparr>]"

definition sheet_display_initial :: styling where
  "sheet_display_initial = [\<lparr>selectors = [[''*'']], decllist = [decl_display_initial]\<rparr>]"






text \<open>\<^verbatim>\<open>margin: 5 10;\<close>\<close>

definition decl_margin_5_10 :: style_declaration where
  "decl_margin_5_10 = \<lparr>property = ''margin'', decl_value = Tup (Num 5) [Num 10]\<rparr>"

text \<open>
  A stand-in for the stylesheet parser that accepts every text, and a node as
  \<^verbatim>\<open>__init__\<close> and a pass of \<^verbatim>\<open>clean\<close> leave it: the id is the builtin, \<open>style\<close> and
  \<open>content\<close> are clean, \<open>size\<close> is still set (nothing in the class clears it).
\<close>

definition parse_any :: "string \<Rightarrow> styling option" where
  "parse_any txt = Some sheet_empty"

definition cleaned :: node where
  "cleaned = init_fields\<lparr>node_id := Id_Builtin, custom_style := Some sheet_empty,
      is_visible := True, computed_styles := Some Map.empty, dirty_properties := {''size''}\<rparr>"

text \<open>
  A root with one child, as \<^verbatim>\<open>append_child\<close> links them (it sets no \<^verbatim>\<open>_parent\<close>), the
  same store inside a method wrapped by \<^verbatim>\<open>defer_dirty\<close>, and the three mutations.
\<close>

definition pair :: store where
  "pair = (\<lambda>_. cleaned)(0 := cleaned\<lparr>children := [1]\<rparr>)"

definition pair_entered :: store where
  "pair_entered = pair(0 := set_attr (pair 0) ''_defer_dirty'' True)"

definition three_mutations :: "mutation list" where
  "three_mutations = [Set_id (Some ''a''), Add_class ''b'', Set_style (Some ''width:1'')]"

text \<open>
  A chain of three nodes with no flag set and with the links to the parents in place:
  0 is the parent of 1, 1 of 2.
\<close>

definition spotless :: node where
  "spotless = cleaned\<lparr>dirty_properties := {}\<rparr>"


text \<open>
  A visible node whose computed style comes from
  \<^verbatim>\<open>width:100; margin:5; border-width:2; padding:3;\<close>
\<close>

definition box_decls :: "style_declaration list" where
  "box_decls =
     [\<lparr>property = ''width'', decl_value = Tok (Num 100)\<rparr>,
      \<lparr>property = ''margin'', decl_value = Tok (Num 5)\<rparr>,
      \<lparr>property = ''border-width'', decl_value = Tok (Num 2)\<rparr>,
      \<lparr>property = ''padding'', decl_value = Tok (Num 3)\<rparr>]"

definition box_sheet :: styling where
  "box_sheet = [\<lparr>selectors = [[''*'']], decllist = box_decls\<rparr>]"

definition box_style :: style_dict where
  "box_style = compute_style sheet_empty [''box''] None (Some box_sheet)"

definition box :: store where
  "box = (\<lambda>_. cleaned\<lparr>custom_style := Some box_sheet, computed_styles := Some box_style\<rparr>)"

section \<open>Selector matching\<close>

lemmas match_eval = match_def elem_matches_def splitsel_def transition_def

text \<open>
  C1. On the chain \<open>[div, p.note]\<close> both \<^verbatim>\<open>div p.note\<close> and \<^verbatim>\<open>div > p.note\<close> match.
  On the chain \<open>[div, span, p.note]\<close> the child rule \<^verbatim>\<open>div > p.note\<close> does not match,
  and neither does the descendant rule \<^verbatim>\<open>div p.note\<close>: when \<open>span\<close> fails to match
  \<open>p.note\<close>, \<^verbatim>\<open>msel\<close> drops the rule's element and keeps the node's, so the rule runs
  out while the chain still holds \<open>span\<close>.
\<close>

theorem match_descendant_chain:
  "match rule_descendant [''div'', ''p.note''] = True
   \<and> match rule_child [''div'', ''p.note''] = True
   \<and> match rule_descendant [''div'', ''span'', ''p.note''] = False
   \<and> match rule_child [''div'', ''span'', ''p.note''] = False"
  by (simp add: rule_descendant_def rule_child_def match_eval)

text \<open>
  C2. The two exits of \<^verbatim>\<open>msel\<close>: an exhausted node chain is a match whatever is left
  of the rule's selector chain, and an exhausted selector chain with nodes left is not a
  match. So \<^verbatim>\<open>div p\<close> matches the bare chain \<open>[div]\<close>, and \<^verbatim>\<open>p\<close> does not match
  the chain \<open>[div, p]\<close>.
\<close>

theorem msel_exits:
  "msel [] (b0 # sb) cont = True
   \<and> msel (a0 # sa) [] cont = False
   \<and> match rule_div_p [''div''] = True
   \<and> match rule_p [''div'', ''p''] = False"
  by (simp add: rule_div_p_def rule_p_def match_eval)

section \<open>The cascade\<close>

text \<open>A pass of the loop overlays what the declaration writes on the dictionary so far.\<close>

lemma expand_step_add: "expand_step m decl = m ++ expand_step Map.empty decl"
  by (auto simp: expand_step_def assign4_def Let_def map_add_def fun_eq_iff
      split: val.splits list.splits prod.splits option.splits)

lemma foldl_expand_unassigned:
  "\<forall>d' \<in> set ys. assigns d' k = None \<Longrightarrow> foldl expand_step m ys k = m k"
proof (induction ys arbitrary: m)
  case Nil
  show ?case by simp
next
  case (Cons y ys)
  have "expand_step m y k = (m ++ expand_step Map.empty y) k"
    using expand_step_add [of m y] by simp
  also have "\<dots> = m k"
    using Cons.prems by (simp add: map_add_def assigns_def)
  finally show ?case using Cons by simp
qed

lemma foldl_expand_last:
  assumes "assigns decl k = Some w"
    and "\<forall>d' \<in> set ys. assigns d' k = None"
  shows "foldl expand_step m (xs @ decl # ys) k = Some w"
proof -
  have "foldl expand_step m (xs @ decl # ys) k = expand_step (foldl expand_step m xs) decl k"
    using foldl_expand_unassigned [OF assms(2)] by simp
  also have "\<dots> = (foldl expand_step m xs ++ expand_step Map.empty decl) k"
    using expand_step_add [of "foldl expand_step m xs" decl] by simp
  also have "\<dots> = Some w"
    using assms(1) by (simp add: map_add_def assigns_def)
  finally show ?thesis .
qed

lemma expand_declarations_last:
  assumes "assigns decl k = Some w"
    and "\<forall>d' \<in> set ys. assigns d' k = None"
  shows "expand_declarations (xs @ decl # ys) k
         = (if w = Tok (Str ''initial'') then None else Some w)"
  using foldl_expand_last [OF assms, of Map.empty xs]
  by (simp add: expand_declarations_def drop_initial_def)


text \<open>
  C3 as stated fails: the literal \<^verbatim>\<open>initial\<close> is filtered out of the dictionary of
  \<^verbatim>\<open>initial_styling\<close> and out of the dictionary of the own and override declarations
  separately, before the two are merged. Take \<^verbatim>\<open>*{display:block;}\<close> both as the
  stylesheet itself and as \<^verbatim>\<open>initial_styling\<close>, and \<^verbatim>\<open>*{display:initial;}\<close> as the
  override: the last applicable declaration of \<open>display\<close> is \<^verbatim>\<open>initial\<close>, and the result
  still holds \<open>display = block\<close>.
\<close>

theorem initial_keeps_base_value:
  "full_decls sheet_display_block [''button''] (Some sheet_display_initial)
     = [decl_display_block, decl_display_initial]
   \<and> get_decllist sheet_display_block [''button'']
       @ get_decllist sheet_display_initial [''button'']
     = [decl_display_block, decl_display_initial]
   \<and> decl_value decl_display_initial = Tok (Str ''initial'')
   \<and> compute_style sheet_display_block [''button'']
         (Some sheet_display_block) (Some sheet_display_initial) ''display''
       = Some (Tok (Str ''block''))"
  by (simp add: get_decllist_def sheet_display_block_def sheet_display_initial_def match_eval
      compute_style_def init_decls_def full_decls_def expand_declarations_def
      drop_initial_def expand_step_def decl_display_block_def decl_display_initial_def
      map_add_def)

text \<open>
  C3, amended. Let the last declaration that writes the key \<open>k\<close>, among the declarations
  of the stylesheet's own matching rules followed by those of the override stylesheet,
  write the literal \<^verbatim>\<open>initial\<close>. Then \<^verbatim>\<open>compute_style\<close> returns under \<open>k\<close> exactly what
  the base stylesheet \<^verbatim>\<open>initial_styling\<close> alone resolves for \<open>k\<close>: never the literal
  \<^verbatim>\<open>initial\<close>, and nothing at all when no base stylesheet is given.
\<close>

theorem initial_falls_back_to_base:
  assumes "full_decls self selector ovr = xs @ decl # ys"
    and "assigns decl k = Some (Tok (Str ''initial''))"
    and "\<forall>d' \<in> set ys. assigns d' k = None"
  shows "compute_style self selector ini ovr k = init_decls selector ini k
       \<and> compute_style self selector ini ovr k \<noteq> Some (Tok (Str ''initial''))
       \<and> compute_style self selector None ovr k = None"
proof -
  have full: "expand_declarations (full_decls self selector ovr) k = None"
    using assms(1) expand_declarations_last [OF assms(2,3), of xs] by simp
  have eq: "compute_style self selector i ovr k = init_decls selector i k" for i
    using full by (simp add: compute_style_def map_add_def)
  have "init_decls selector ini k \<noteq> Some (Tok (Str ''initial''))"
    by (simp add: init_decls_def expand_declarations_def drop_initial_def
        split: option.splits)
  moreover have "init_decls selector None k = None"
    by (simp add: init_decls_def)
  ultimately show ?thesis using eq by simp
qed

text \<open>
  The witness: an override \<^verbatim>\<open>*{display:initial;}\<close> uncovers the \<open>block\<close> of the base
  stylesheet, and removes the \<open>block\<close> of the stylesheet's own rule when there is no base
  stylesheet.
\<close>

theorem initial_falls_back_to_base_witness:
  "compute_style sheet_empty [''button''] (Some sheet_display_block)
       (Some sheet_display_initial) ''display'' = Some (Tok (Str ''block''))
   \<and> compute_style sheet_display_block [''button''] None
       (Some sheet_display_initial) ''display'' = None"
proof -
  have full1: "full_decls sheet_empty [''button''] (Some sheet_display_initial)
        = [] @ decl_display_initial # []"
    by (simp add: full_decls_def get_decllist_def sheet_empty_def
        sheet_display_initial_def match_eval)
  have full2: "full_decls sheet_display_block [''button''] (Some sheet_display_initial)
        = [decl_display_block] @ decl_display_initial # []"
    by (simp add: full_decls_def get_decllist_def sheet_display_block_def
        sheet_display_initial_def match_eval)
  have a: "assigns decl_display_initial ''display'' = Some (Tok (Str ''initial''))"
    by (simp add: assigns_def expand_step_def decl_display_initial_def)
  have b: "\<forall>d' \<in> set []. assigns d' ''display'' = None" by simp
  have "init_decls [''button''] (Some sheet_display_block) ''display''
        = Some (Tok (Str ''block''))"
    by (simp add: init_decls_def get_decllist_def sheet_display_block_def match_eval
        expand_declarations_def drop_initial_def expand_step_def decl_display_block_def)
  then have "compute_style sheet_empty [''button''] (Some sheet_display_block)
       (Some sheet_display_initial) ''display'' = Some (Tok (Str ''block''))"
    using initial_falls_back_to_base [OF full1 a b, of "Some sheet_display_block"] by simp
  moreover have "compute_style sheet_display_block [''button''] None
       (Some sheet_display_initial) ''display'' = None"
    using initial_falls_back_to_base [OF full2 a b, of None] by blast
  ultimately show ?thesis by blast
qed



text \<open>
  C8. A \<^verbatim>\<open>margin\<close> or \<^verbatim>\<open>padding\<close> declaration sets the four side entries by the
  top, right, bottom, left rule: one value goes to all four sides; two values \<open>(a, b)\<close>
  give top and bottom \<open>a\<close>, right and left \<open>b\<close>; three values \<open>(a, b, c)\<close> give top \<open>a\<close>,
  right and left \<open>b\<close>, bottom \<open>c\<close>; four values are top, right, bottom, left in turn. This
  holds after any earlier declarations \<open>ds\<close>, for values other than the literal
  \<^verbatim>\<open>initial\<close>.
\<close>

theorem trbl_expansion:
  assumes "p = ''margin'' \<or> p = ''padding''"
    and "Str ''initial'' \<notin> {a, b, c, d}"
  shows "sides (expand_declarations (ds @ [\<lparr>property = p, decl_value = Tok a\<rparr>])) p
           = (Some (Tok a), Some (Tok a), Some (Tok a), Some (Tok a))
       \<and> sides (expand_declarations (ds @ [\<lparr>property = p, decl_value = Tup a []\<rparr>])) p
           = (Some (Tok a), Some (Tok a), Some (Tok a), Some (Tok a))
       \<and> sides (expand_declarations (ds @ [\<lparr>property = p, decl_value = Tup a [b]\<rparr>])) p
           = (Some (Tok a), Some (Tok b), Some (Tok a), Some (Tok b))
       \<and> sides (expand_declarations (ds @ [\<lparr>property = p, decl_value = Tup a [b, c]\<rparr>])) p
           = (Some (Tok a), Some (Tok b), Some (Tok c), Some (Tok b))
       \<and> sides (expand_declarations (ds @ [\<lparr>property = p, decl_value = Tup a [b, c, d]\<rparr>])) p
           = (Some (Tok a), Some (Tok b), Some (Tok c), Some (Tok d))"
  using assms
  by (auto simp: sides_def expand_declarations_def drop_initial_def expand_step_def assign4_def)

theorem trbl_expansion_witness:
  "sides (expand_declarations [decl_margin_5_10]) ''margin''
     = (Some (Tok (Num 5)), Some (Tok (Num 10)), Some (Tok (Num 5)), Some (Tok (Num 10)))"
  using trbl_expansion [of "''margin''" "Num 5" "Num 10" "Num 10" "Num 10" "[]"]
  by (simp add: decl_margin_5_10_def)

section \<open>Dirtiness\<close>

subsection \<open>What every run of \<^verbatim>\<open>dirty\<close> keeps\<close>

lemma ident_mark_dirty [simp]: "ident (mark_dirty nd P a b) = ident nd"
  by (simp add: ident_def mark_dirty_def Let_def)

lemma ident_clear_parent [simp]: "ident (clear_pending_parent nd) = ident nd"
  by (simp add: ident_def clear_pending_parent_def)

lemma ident_clear_children [simp]: "ident (clear_pending_children nd) = ident nd"
  by (simp add: ident_def clear_pending_children_def)

lemma and_then_rel:
  assumes trans: "\<And>a b c. Q a b \<Longrightarrow> Q b c \<Longrightarrow> Q a c"
    and r: "\<forall>m. Q (s m) (fst r m)"
    and f: "\<And>s1. \<forall>m. Q (s1 m) (fst (f s1) m)"
  shows "\<forall>m. Q (s m) (fst (and_then r f) m)"
proof (cases r)
  case (Pair s1 e)
  show ?thesis
  proof (cases e)
    case None
    have "\<forall>m. Q (s m) (s1 m)" using r Pair by simp
    then have "\<forall>m. Q (s m) (fst (f s1) m)" using f [of s1] trans by blast
    then show ?thesis using Pair None by (simp add: and_then_def)
  next
    case (Some x)
    then show ?thesis using r Pair by (simp add: and_then_def)
  qed
qed

lemma dirty_rel:
  assumes refl: "\<And>nd. Q nd nd"
    and trans: "\<And>a b c. Q a b \<Longrightarrow> Q b c \<Longrightarrow> Q a c"
    and mark: "\<And>nd P a b. Q nd (mark_dirty nd P a b)"
    and clearp: "\<And>nd. Q nd (clear_pending_parent nd)"
    and clearc: "\<And>nd. Q nd (clear_pending_children nd)"
  shows "\<forall>m. Q (s m) (fst (dirty k s n pa tp tc) m)"
    and "\<forall>m. Q (s m) (fst (propagate_dirtiness k s n) m)"
    and "\<forall>m. Q (s m) (fst (dirty_each k s n cs) m)"
proof (induction k s n pa tp tc and k s n and k s n cs
       rule: dirty_propagate_dirtiness_dirty_each.induct)
  case (1 s n properties to_parent to_children)
  show ?case using refl by simp
next
  case (2 k s n properties to_parent to_children)
  let ?s1 = "s(n := mark_dirty (s n) (properties_set properties) to_parent to_children)"
  have a: "\<forall>m. Q (?s1 m) (fst (propagate_dirtiness k ?s1 n) m)"
    using "2.IH" .
  have b: "\<forall>m. Q (s m) (?s1 m)" using refl mark by simp
  have "\<forall>m. Q (s m) (fst (propagate_dirtiness k ?s1 n) m)"
    using a b trans by blast
  then show ?case by simp
next
  case (3 k s n)
  show ?case
  proof (cases "p_defer (dirty_propagation (s n))")
    case True
    then show ?thesis using refl by (simp add: propagate_dirtiness.simps)
  next
    case nd: False
    define up where "up =
       (if p_parent (dirty_propagation (s n)) \<noteq> {} then
             and_then
               (case parent (s n) of
                  None \<Rightarrow> (s, None)
                | Some p \<Rightarrow> dirty k s p (P_Set (p_parent (dirty_propagation (s n)))) True False)
               (\<lambda>s1. (s1(n := clear_pending_parent (s1 n)), None))
           else (s, None))"
    define down where "down = (\<lambda>s2.
             if p_children (dirty_propagation (s2 n)) \<noteq> {} then
               and_then (dirty_each k s2 n (children (s2 n)))
                 (\<lambda>s3. (s3(n := clear_pending_children (s3 n)), None))
             else (s2, None))"
    have eq: "propagate_dirtiness k s n = and_then up down"
      using nd by (simp add: propagate_dirtiness.simps up_def down_def)
    have clear1: "\<forall>m. Q (x m) (fst (x(n := clear_pending_parent (x n)), None :: error option) m)" for x
      using refl clearp by simp
    have clear2: "\<forall>m. Q (x m) (fst (x(n := clear_pending_children (x n)), None :: error option) m)" for x
      using refl clearc by simp
    have up: "\<forall>m. Q (s m) (fst up m)"
    proof (cases "p_parent (dirty_propagation (s n)) \<noteq> {}")
      case ne: True
      have "\<forall>m. Q (s m) (fst (case parent (s n) of
                  None \<Rightarrow> (s, None)
                | Some p \<Rightarrow> dirty k s p (P_Set (p_parent (dirty_propagation (s n)))) True False) m)"
      proof (cases "parent (s n)")
        case None
        then show ?thesis using refl by simp
      next
        case (Some p)
        then show ?thesis using "3.IH"(1) [OF nd ne Some] by simp
      qed
      then have "\<forall>m. Q (s m) (fst (and_then (case parent (s n) of
                  None \<Rightarrow> (s, None)
                | Some p \<Rightarrow> dirty k s p (P_Set (p_parent (dirty_propagation (s n)))) True False)
               (\<lambda>s1. (s1(n := clear_pending_parent (s1 n)), None))) m)"
        by (rule and_then_rel [where Q = Q, rotated]) (rule clear1, rule trans)
      then show ?thesis using ne by (simp add: up_def)
    next
      case False
      then show ?thesis using refl by (simp add: up_def)
    qed
    have down: "\<forall>m. Q (x m) (fst (down x) m)" for x
    proof (cases "p_children (dirty_propagation (x n)) \<noteq> {}")
      case ne: True
      have "\<forall>m. Q (x m) (fst (dirty_each k x n (children (x n))) m)"
        using "3.IH"(2) [of x] nd ne by simp
      then have "\<forall>m. Q (x m) (fst (and_then (dirty_each k x n (children (x n)))
                 (\<lambda>s3. (s3(n := clear_pending_children (s3 n)), None))) m)"
        by (rule and_then_rel [where Q = Q, rotated]) (rule clear2, rule trans)
      then show ?thesis using ne by (simp add: down_def)
    next
      case False
      then show ?thesis using refl by (simp add: down_def)
    qed
    have "\<forall>m. Q (s m) (fst (and_then up down) m)"
      using up by (rule and_then_rel [where Q = Q, rotated]) (rule down, rule trans)
    then show ?thesis unfolding eq .
  qed
next
  case (4 k s n)
  show ?case using refl by simp
next
  case (5 k s n c cs)
  have "\<forall>m. Q (s m) (fst (and_then
      (dirty k s c (P_Set (p_children (dirty_propagation (s n)))) False True)
      (\<lambda>s1. dirty_each k s1 n cs)) m)"
    using "5.IH"(1) by (rule and_then_rel [where Q = Q, rotated]) (rule "5.IH"(2), rule trans)
  then show ?case by simp
qed

lemma dirty_ident:
  "ident (fst (dirty k s n pa tp tc) m) = ident (s m)"
  using dirty_rel(1) [of "\<lambda>a b. ident b = ident a" s k n pa tp tc] by simp



lemma ident_fields:
  assumes "ident a = ident b"
  shows "parent a = parent b" "children a = children b"
    "p_defer (dirty_propagation a) = p_defer (dirty_propagation b)"
    "node_id a = node_id b" "classes a = classes b" "pseudoclasses a = pseudoclasses b"
    "extra_attrs a = extra_attrs b" "style_str a = style_str b" "custom_style a = custom_style b"
proof -
  have "parent (ident a) = parent (ident b)" "children (ident a) = children (ident b)"
    "p_defer (dirty_propagation (ident a)) = p_defer (dirty_propagation (ident b))"
    "node_id (ident a) = node_id (ident b)" "classes (ident a) = classes (ident b)"
    "pseudoclasses (ident a) = pseudoclasses (ident b)"
    "extra_attrs (ident a) = extra_attrs (ident b)" "style_str (ident a) = style_str (ident b)"
    "custom_style (ident a) = custom_style (ident b)"
    using assms by simp_all
  then show "parent a = parent b" "children a = children b"
    "p_defer (dirty_propagation a) = p_defer (dirty_propagation b)"
    "node_id a = node_id b" "classes a = classes b" "pseudoclasses a = pseudoclasses b"
    "extra_attrs a = extra_attrs b" "style_str a = style_str b" "custom_style a = custom_style b"
    by (simp_all add: ident_def)
qed

subsection \<open>Upwards: the parent and its ancestors\<close>


subsection \<open>Downwards: the children and their descendants\<close>







subsection \<open>A call of \<^verbatim>\<open>dirty\<close> on a node at rest\<close>



lemmas node_eval = cleaned_def spotless_def init_fields_def mark_dirty_def
  clear_pending_parent_def clear_pending_children_def and_then_def Let_def eval_nat_numeral
  propagate_dirtiness.simps set_attr_def sheet_empty_def parse_any_def

text \<open>
  C5. The decorator does not hold anything back. Take the root of \<open>pair\<close> inside a
  wrapped method (\<^verbatim>\<open>_defer_dirty\<close> is \<^verbatim>\<open>True\<close>): the first of the three mutations,
  setting the id, already dirties the child with all three flags and leaves nothing
  queued on the root, because \<^verbatim>\<open>propagate_dirtiness\<close> reads
  \<^verbatim>\<open>_dirty_propagation['defer']\<close>, which the decorator never sets. The whole wrapped
  call ends without an exception. The entry the decorator misses does what the claim
  describes: with \<^verbatim>\<open>defer_dirty_propagation = True\<close> the three mutations leave the child
  as it was and the flags queued on the root, and setting it back to \<^verbatim>\<open>False\<close> hands
  them to the child in one pass.
\<close>

theorem defer_dirty_does_not_hold:
  "dirty_properties (pair 1) = {''size''}
   \<and> extra_attrs (fst (mutate parse_any 3 pair_entered 0 (Set_id (Some ''a''))) 0) ''_defer_dirty''
       = Some True
   \<and> dirty_properties (fst (mutate parse_any 3 pair_entered 0 (Set_id (Some ''a''))) 1)
       = {''style'', ''size'', ''content''}
   \<and> p_children (dirty_propagation
         (fst (mutate parse_any 3 pair_entered 0 (Set_id (Some ''a''))) 0)) = {}
   \<and> snd (defer_dirty P_None True False (mutate_all parse_any three_mutations) 3 pair 0) = None
   \<and> dirty_properties (fst (mutate_all parse_any three_mutations 3
         (fst (set_defer_dirty_propagation 3 pair 0 True)) 0) 1) = {''size''}
   \<and> p_children (dirty_propagation (fst (mutate_all parse_any three_mutations 3
         (fst (set_defer_dirty_propagation 3 pair 0 True)) 0) 0))
       = {''style'', ''size'', ''content''}
   \<and> dirty_properties (fst (set_defer_dirty_propagation 3
         (fst (mutate_all parse_any three_mutations 3
            (fst (set_defer_dirty_propagation 3 pair 0 True)) 0)) 0 False) 1)
       = {''style'', ''size'', ''content''}"
  by (auto simp: pair_def pair_entered_def three_mutations_def node_eval id_setter_def
      add_class_def style_setter_def defer_dirty_def set_defer_dirty_propagation_def strip_def
      is_space_def)




section \<open>The id\<close>

text \<open>
  C10. Let \<open>x\<close> be a string other than the node's current id. After \<^verbatim>\<open>node.id = x\<close> the
  getter does not return \<open>x\<close>: it returns the old id when that equals the stripped \<open>x\<close>
  (the setter returns early), and the builtin function \<^verbatim>\<open>id\<close> otherwise. This holds
  for every bound on the nesting of calls, whether or not the \<^verbatim>\<open>dirty\<close> at the end of
  the setter raises.
\<close>

theorem id_setter_never_keeps_string:
  assumes "node_id (s n) \<noteq> Id_Str x"
  shows "id_getter (fst (id_setter k s n (Some x))) n \<noteq> Id_Str x
       \<and> id_getter (fst (id_setter k s n (Some x))) n
           = (if node_id (s n) = Id_Str (strip x) then node_id (s n) else Id_Builtin)"
proof (cases "node_id (s n) = Id_Str (strip x)")
  case True
  then show ?thesis using assms by (simp add: id_setter_def id_getter_def)
next
  case False
  let ?s0 = "s(n := (s n)\<lparr>node_id := Id_Builtin\<rparr>)"
  have "node_id (fst (dirty k ?s0 n P_None True True) n) = node_id (?s0 n)"
    using dirty_ident [of k ?s0 n P_None True True n] ident_fields(4) by blast
  then show ?thesis using False by (simp add: id_setter_def id_getter_def)
qed

theorem id_setter_never_keeps_string_witness:
  "node_id (pair 0) \<noteq> Id_Str ''title''
   \<and> id_getter (fst (id_setter 3 pair 0 (Some ''title''))) 0 = Id_Builtin
   \<and> node_id (init_fields) \<noteq> Id_Str ''title''
   \<and> id_getter (fst (id_setter 3 (\<lambda>_. init_fields) 0 (Some ''title''))) 0 = Id_Builtin"
proof -
  have a: "node_id (pair 0) \<noteq> Id_Str ''title''"
    by (simp add: pair_def cleaned_def init_fields_def)
  have b: "node_id ((\<lambda>_. init_fields) (0::nat)) \<noteq> Id_Str ''title''"
    by (simp add: init_fields_def)
  have c: "strip ''title'' = ''title''" by (simp add: strip_def is_space_def)
  show ?thesis
    using id_setter_never_keeps_string [of pair 0 "''title''" 3]
      id_setter_never_keeps_string [of "\<lambda>_. init_fields" 0 "''title''" 3] a b c
    by (simp add: init_fields_def)
qed

section \<open>Layout\<close>

subsection \<open>No call stores \<^verbatim>\<open>_is_dirty\<close>\<close>

lemma dirty_extra: "extra_attrs (fst (dirty k s n pa tp tc) m) = extra_attrs (s m)"
  using dirty_ident [of k s n pa tp tc m] ident_fields(7) by blast

lemma propagate_extra: "extra_attrs (fst (propagate_dirtiness k s n) m) = extra_attrs (s m)"
  using dirty_rel(2) [of "\<lambda>a b. extra_attrs b = extra_attrs a" s k n]
  by (simp add: mark_dirty_def Let_def clear_pending_parent_def clear_pending_children_def)

lemma no_is_dirty_dirty: "no_is_dirty s \<Longrightarrow> no_is_dirty (fst (dirty k s n pa tp tc))"
  by (simp add: no_is_dirty_def dirty_extra)

lemma no_is_dirty_write:
  "no_is_dirty s \<Longrightarrow> extra_attrs nd ''_is_dirty'' = None \<Longrightarrow> no_is_dirty (s(n := nd))"
  by (simp add: no_is_dirty_def)

lemma no_is_dirty_mutate: "no_is_dirty s \<Longrightarrow> no_is_dirty (fst (mutate parse k s n mu))"
proof (cases mu)
  case (Set_style x)
  assume a: "no_is_dirty s"
  show ?thesis using Set_style a
    by (auto simp: style_setter_def Let_def no_is_dirty_def dirty_extra split: option.splits)
next
  case (Add_style x)
  assume a: "no_is_dirty s"
  show ?thesis using Add_style a
    by (auto simp: add_style_def style_setter_def Let_def no_is_dirty_def dirty_extra
        split: option.splits)
next
  case (Set_id x)
  assume a: "no_is_dirty s"
  show ?thesis using Set_id a
    by (auto simp: id_setter_def Let_def no_is_dirty_def dirty_extra)
next
  case (Set_classes x)
  assume a: "no_is_dirty s"
  show ?thesis using Set_classes a
    by (auto simp: classes_setter_def Let_def no_is_dirty_def dirty_extra)
next
  case (Add_class x)
  assume a: "no_is_dirty s"
  show ?thesis using Add_class a
    by (auto simp: add_class_def no_is_dirty_def dirty_extra)
next
  case (Del_class x)
  assume a: "no_is_dirty s"
  show ?thesis using Del_class a
    by (auto simp: del_class_def no_is_dirty_def dirty_extra)
next
  case Clear_pseudoclass
  assume a: "no_is_dirty s"
  show ?thesis using Clear_pseudoclass a
    by (auto simp: clear_pseudoclass_def no_is_dirty_def dirty_extra)
next
  case (Add_pseudoclass x)
  assume a: "no_is_dirty s"
  show ?thesis using Add_pseudoclass a
    by (auto simp: add_pseudoclass_def no_is_dirty_def dirty_extra)
next
  case (Del_pseudoclass x)
  assume a: "no_is_dirty s"
  show ?thesis using Del_pseudoclass a
    by (auto simp: del_pseudoclass_def no_is_dirty_def dirty_extra)
qed

lemma no_is_dirty_and_then:
  assumes "no_is_dirty (fst r)" and "\<And>s1. no_is_dirty s1 \<Longrightarrow> no_is_dirty (fst (f s1))"
  shows "no_is_dirty (fst (and_then r f))"
  using assms by (cases r) (auto simp: and_then_def split: option.splits)

lemma no_is_dirty_mutate_all:
  "no_is_dirty s \<Longrightarrow> no_is_dirty (fst (mutate_all parse mus k s n))"
proof (induction mus arbitrary: s)
  case Nil
  then show ?case by simp
next
  case (Cons mu mus)
  show ?case
    unfolding mutate_all.simps
    by (rule no_is_dirty_and_then) (simp_all add: Cons no_is_dirty_mutate)
qed

lemma no_is_dirty_set_attr:
  "no_is_dirty s \<Longrightarrow> no_is_dirty (s(n := set_attr (s n) ''_defer_dirty'' v))"
  by (simp add: no_is_dirty_def set_attr_def)

lemma no_is_dirty_delete_child:
  assumes "no_is_dirty s"
  shows "no_is_dirty (fst (delete_child k s n child))"
proof (cases "child \<in> set (children (s n))")
  case False
  then show ?thesis using assms by (simp add: delete_child_def)
next
  case True
  define s2 where "s2 = (s(n := (s n)\<lparr>children := remove1 child (children (s n))\<rparr>))
      (child := ((s(n := (s n)\<lparr>children := remove1 child (children (s n))\<rparr>)) child)
         \<lparr>parent := None\<rparr>)"
  have "no_is_dirty s2" using assms by (simp add: no_is_dirty_def s2_def)
  then have "no_is_dirty (fst (and_then (dirty k s2 child P_None True False)
             (\<lambda>s3. dirty k s3 n (P_Str ''content'') True False)))"
    by (intro no_is_dirty_and_then) (simp_all add: no_is_dirty_dirty)
  then show ?thesis using True by (simp add: delete_child_def Let_def s2_def)
qed

lemma no_is_dirty_append_child:
  assumes "no_is_dirty s"
  shows "no_is_dirty (fst (append_child k s n child))"
proof (cases "child \<in> set (children (s n))")
  case True
  then show ?thesis using assms by (simp add: append_child_def)
next
  case False
  have a: "no_is_dirty (fst (case parent (s child) of
             None \<Rightarrow> (s, None)
           | Some p \<Rightarrow> delete_child k s p child))"
    using assms by (simp add: no_is_dirty_delete_child split: option.splits)
  have b: "no_is_dirty (fst (and_then
                  (dirty k (s1(n := (s1 n)\<lparr>children := children (s1 n) @ [child]\<rparr>)) child
                     P_None True False)
                  (\<lambda>s2. dirty k s2 n P_None True False)))" if "no_is_dirty s1" for s1
  proof (rule no_is_dirty_and_then)
    have "no_is_dirty (s1(n := (s1 n)\<lparr>children := children (s1 n) @ [child]\<rparr>))"
      using that by (simp add: no_is_dirty_def)
    then show "no_is_dirty (fst (dirty k
        (s1(n := (s1 n)\<lparr>children := children (s1 n) @ [child]\<rparr>)) child P_None True False))"
      by (rule no_is_dirty_dirty)
  next
    fix s2 assume "no_is_dirty s2"
    then show "no_is_dirty (fst (dirty k s2 n P_None True False))" by (rule no_is_dirty_dirty)
  qed
  have "no_is_dirty (fst (and_then
          (case parent (s child) of
             None \<Rightarrow> (s, None)
           | Some p \<Rightarrow> delete_child k s p child)
          (\<lambda>s1. and_then
                  (dirty k (s1(n := (s1 n)\<lparr>children := children (s1 n) @ [child]\<rparr>)) child
                     P_None True False)
                  (\<lambda>s2. dirty k s2 n P_None True False))))"
    using a b by (rule no_is_dirty_and_then)
  then show ?thesis using False by (simp add: append_child_def)
qed

lemma no_is_dirty_delete_each:
  "no_is_dirty s \<Longrightarrow> no_is_dirty (fst (delete_each k s n cs))"
proof (induction cs arbitrary: s)
  case Nil
  then show ?case by simp
next
  case (Cons c cs)
  show ?case
    unfolding delete_each.simps
    by (rule no_is_dirty_and_then) (simp_all add: Cons no_is_dirty_delete_child)
qed

lemma no_is_dirty_clear_children:
  assumes "no_is_dirty s"
  shows "no_is_dirty (fst (clear_children k s n))"
  unfolding clear_children_def defer_dirty_def
proof (rule no_is_dirty_and_then)
  have "no_is_dirty (s(n := set_attr (s n) ''_defer_dirty'' True))"
    using assms by (rule no_is_dirty_set_attr)
  then show "no_is_dirty (fst (delete_each k (s(n := set_attr (s n) ''_defer_dirty'' True)) n
      (children ((s(n := set_attr (s n) ''_defer_dirty'' True)) n))))"
    by (rule no_is_dirty_delete_each)
next
  fix s1 assume "no_is_dirty s1"
  then show "no_is_dirty (fst (dirty k (s1(n := set_attr (s1 n) ''_defer_dirty'' False))
      n P_None True False))"
    by (simp add: no_is_dirty_dirty no_is_dirty_set_attr)
qed

lemma no_is_dirty_perform:
  assumes "no_is_dirty s"
  shows "no_is_dirty (fst (perform parse k s n r))"
proof (cases r)
  case (Req_dirty pa tp tc)
  then show ?thesis using assms by (simp add: no_is_dirty_dirty)
next
  case (Req_defer v)
  then show ?thesis using assms
    by (simp add: set_defer_dirty_propagation_def no_is_dirty_def propagate_extra)
next
  case (Req_mutate mu)
  then show ?thesis using assms by (simp add: no_is_dirty_mutate)
next
  case (Req_deferred pa tp tc mus)
  have "no_is_dirty (fst (defer_dirty pa tp tc (mutate_all parse mus) k s n))"
    unfolding defer_dirty_def
  proof (rule no_is_dirty_and_then)
    show "no_is_dirty (fst (mutate_all parse mus k
        (s(n := set_attr (s n) ''_defer_dirty'' True)) n))"
      using assms by (simp add: no_is_dirty_mutate_all no_is_dirty_set_attr)
  next
    fix s1 assume "no_is_dirty s1"
    then show "no_is_dirty (fst (dirty k (s1(n := set_attr (s1 n) ''_defer_dirty'' False))
        n pa tp tc))"
      by (simp add: no_is_dirty_dirty no_is_dirty_set_attr)
  qed
  then show ?thesis using Req_deferred by simp
next
  case (Req_append_child child)
  then show ?thesis using assms by (simp add: no_is_dirty_append_child)
next
  case (Req_delete_child child)
  then show ?thesis using assms by (simp add: no_is_dirty_delete_child)
next
  case Req_clear_children
  then show ?thesis using assms by (simp add: no_is_dirty_clear_children)
next
  case Req_layout
  then show ?thesis using assms by (simp add: layout.simps no_is_dirty_def)
qed

lemma reachable_no_is_dirty: "reachable parse s \<Longrightarrow> no_is_dirty s"
proof (induction rule: reachable.induct)
  case (constructed s)
  then show ?case by (simp add: no_is_dirty_def)
next
  case (performed s k n r)
  then show ?case by (simp add: no_is_dirty_perform)
qed

text \<open>
  C9. In every store that the calls on nodes lead to from objects holding only the
  attributes of \<^verbatim>\<open>__init__\<close>, \<^verbatim>\<open>layout\<close> on any node raises \<^verbatim>\<open>AttributeError\<close> at
  its first line and leaves the store as it was: no call stores an attribute
  \<^verbatim>\<open>_is_dirty\<close>, so the preferred sizes are never computed.
\<close>

theorem layout_raises_attribute_error:
  assumes "reachable parse s"
  shows "layout k s n = (s, Some AttributeError)"
  using reachable_no_is_dirty [OF assms] by (simp add: layout.simps no_is_dirty_def)

theorem layout_raises_attribute_error_witness:
  "reachable parse_any (fst (perform parse_any 3 pair 0 (Req_mutate (Add_class ''b''))))
   \<and> layout 3 (fst (perform parse_any 3 pair 0 (Req_mutate (Add_class ''b'')))) 1
       = (fst (perform parse_any 3 pair 0 (Req_mutate (Add_class ''b''))), Some AttributeError)"
proof -
  have "\<forall>n. extra_attrs (pair n) = Map.empty"
    by (simp add: pair_def cleaned_def init_fields_def)
  then have "reachable parse_any pair" by (rule reachable.constructed)
  then have r: "reachable parse_any (fst (perform parse_any 3 pair 0 (Req_mutate (Add_class ''b''))))"
    by (rule reachable.performed)
  show ?thesis using r layout_raises_attribute_error [OF r] by simp
qed

subsection \<open>The box of the specification\<close>

lemmas style_eval = box_style_def box_sheet_def box_decls_def compute_style_def init_decls_def
  full_decls_def get_decllist_def match_eval expand_declarations_def drop_initial_def
  expand_step_def assign4_def sheet_empty_def map_add_def Let_def

lemma box_style_entries:
  "box_style ''width'' = None" "box_style ''height'' = None"
  "box_style ''min-width'' = Some (Tok (Num 100))"
  "box_style ''max-width'' = Some (Tok (Num 100))"
  "box_style ''min-height'' = None" "box_style ''max-height'' = None"
  "box_style ''margin-left'' = Some (Tok (Num 5))" "box_style ''margin-right'' = Some (Tok (Num 5))"
  "box_style ''margin-top'' = Some (Tok (Num 5))" "box_style ''margin-bottom'' = Some (Tok (Num 5))"
  "box_style ''padding-left'' = Some (Tok (Num 3))" "box_style ''padding-right'' = Some (Tok (Num 3))"
  "box_style ''padding-top'' = Some (Tok (Num 3))" "box_style ''padding-bottom'' = Some (Tok (Num 3))"
  "box_style ''border-width'' = Some (Tok (Num 2))"
  by (simp_all add: style_eval)

lemma box_preferred_width:
  "preferred box_style ''width'' ''left'' ''right'' (Fin 0) = Inr (Fin 120)"
  by (simp add: preferred_def style_num_def get_style_num_def bind_err_def mid_def
      box_style_entries)

lemma box_preferred_height:
  "preferred box_style ''height'' ''top'' ''bottom'' (Fin 0) = Inr (Fin 20)"
  by (simp add: preferred_def style_num_def get_style_num_def bind_err_def mid_def
      box_style_entries)

text \<open>
  C7. For the visible node of \<open>box\<close>, whose computed style resolves
  \<^verbatim>\<open>width:100; margin:5; border-width:2; padding:3;\<close>, \<^verbatim>\<open>layout\<close> raises
  \<^verbatim>\<open>AttributeError\<close> and the preferred width stays \<open>0\<close>, the value of \<^verbatim>\<open>__init__\<close>.
  The sum that \<^verbatim>\<open>layout\<close> would store is the one the claim gives,
  \<open>5 + 2 + 3 + 100 + 3 + 2 + 5 = 120\<close>: it is stored as soon as the node carries an
  attribute \<^verbatim>\<open>_is_dirty\<close> that is true.
\<close>

theorem layout_box_raises:
  "layout k box 0 = (box, Some AttributeError)
   \<and> preferred_width (fst (layout k box 0) 0) = Fin 0
   \<and> preferred box_style ''width'' ''left'' ''right'' (content_width (box 0)) = Inr (Fin 120)
   \<and> snd (layout k (box(0 := set_attr (box 0) ''_is_dirty'' True)) 0) = None
   \<and> preferred_width (fst (layout k (box(0 := set_attr (box 0) ''_is_dirty'' True)) 0) 0)
       = Fin 120"
  using box_preferred_width box_preferred_height
  by (simp add: layout.simps box_def cleaned_def init_fields_def set_attr_def layout_sizes_def
      store_width_def store_height_def and_then_def)

end
